theory Spec2Isabelle
  imports Complex_Main
begin

section \<open>JavaScript values and builtins used by the harness\<close>

text \<open>
  The values that cross the boundary to the automation client: the tab handle returned by
  \<open>initializeSession\<close> and the value read back by \<open>eval\<close>. The read-back script is
  \<open>document.querySelector(sel)?.value || ''\<close>, whose value the client returns as it sees
  fit: a primitive value, an array, or another object. Of an object that is not an array the
  harness observes two things only, whether its \<open>length\<close> property compares greater than
  zero and its rendering as a string, and the model keeps exactly these two. Numbers are
  unbounded integers, which is exact for the counters and indices of the harness below
  \<open>2^53\<close>; strings are lists of 8-bit characters.
\<close>

datatype jsval =
    JUndefined
  | JNull
  | JBool bool
  | JNum int
  | JStr string
  | JArr "jsval list"
  | JObj bool string

text \<open>Truthiness, as used by \<open>&&\<close> and \<open>||\<close>: every object is truthy.\<close>

fun truthy :: "jsval \<Rightarrow> bool" where
  "truthy JUndefined = False"
| "truthy JNull = False"
| "truthy (JBool b) = b"
| "truthy (JNum n) = (n \<noteq> 0)"
| "truthy (JStr s) = (s \<noteq> [])"
| "truthy (JArr xs) = True"
| "truthy (JObj p r) = True"

text \<open>
  \<open>value.length > 0\<close>: a string and an array have their length; on a boolean or a number
  the property is \<open>undefined\<close> and the comparison is false; the expression is never
  reached for \<open>undefined\<close> and \<open>null\<close>, which are falsy.
\<close>

fun length_gt0 :: "jsval \<Rightarrow> bool" where
  "length_gt0 (JStr s) = (0 < length s)"
| "length_gt0 (JArr xs) = (0 < length xs)"
| "length_gt0 (JObj p r) = p"
| "length_gt0 _ = False"


subsection \<open>Decimal rendering of integers\<close>

definition digit_char :: "nat \<Rightarrow> char" where
  "digit_char d = char_of (48 + d)"

function string_of_nat :: "nat \<Rightarrow> string" where
  "string_of_nat n =
     (if n < 10 then [digit_char n] else string_of_nat (n div 10) @ [digit_char (n mod 10)])"
  by pat_completeness auto
termination
  by (relation "measure id") auto

declare string_of_nat.simps [simp del]

text \<open>
  \<open>String(i)\<close> for an integral number \<open>i\<close>, as a template literal \<open>${i}\<close> renders it
  (below \<open>10^21\<close> in magnitude, where JavaScript switches to exponent notation).
\<close>

definition string_of_int :: "int \<Rightarrow> string" where
  "string_of_int i = (if i < 0 then CHR ''-'' # string_of_nat (nat (- i)) else string_of_nat (nat i))"

text \<open>
  \<open>String(value)\<close>, as a template literal renders it. An array is the join of its
  elements by commas, \<open>undefined\<close> and \<open>null\<close> elements rendering as nothing.
\<close>

fun to_string :: "jsval \<Rightarrow> string" and join_elements :: "jsval list \<Rightarrow> string" where
  "to_string JUndefined = ''undefined''"
| "to_string JNull = ''null''"
| "to_string (JBool b) = (if b then ''true'' else ''false'')"
| "to_string (JNum n) = string_of_int n"
| "to_string (JStr s) = s"
| "to_string (JArr xs) = join_elements xs"
| "to_string (JObj p r) = r"
| "join_elements [] = []"
| "join_elements (x # xs) =
     (case x of JUndefined \<Rightarrow> [] | JNull \<Rightarrow> [] | _ \<Rightarrow> to_string x)
     @ (if xs = [] then [] else CHR '','' # join_elements xs)"

subsection \<open>\<open>parseInt\<close> with no radix argument\<close>

definition is_ws :: "char \<Rightarrow> bool" where
  "is_ws c = (c = CHR 0x09 \<or> c = CHR 0x0A \<or> c = CHR 0x0B \<or> c = CHR 0x0C \<or> c = CHR 0x0D
              \<or> c = CHR '' '' \<or> c = CHR 0xA0)"

text \<open>The value of a character as a digit, letters counting from ten in either case.\<close>

definition digit_val :: "char \<Rightarrow> nat option" where
  "digit_val c =
     (let k = of_char c :: nat in
      if 48 \<le> k \<and> k \<le> 57 then Some (k - 48)
      else if 97 \<le> k \<and> k \<le> 122 then Some (k - 87)
      else if 65 \<le> k \<and> k \<le> 90 then Some (k - 55)
      else None)"

definition is_digit :: "nat \<Rightarrow> char \<Rightarrow> bool" where
  "is_digit R c = (case digit_val c of None \<Rightarrow> False | Some v \<Rightarrow> v < R)"

definition digits_value :: "nat \<Rightarrow> string \<Rightarrow> nat" where
  "digits_value R Z = foldl (\<lambda>a c. a * R + the (digit_val c)) 0 Z"

text \<open>
  \<open>parseInt(s)\<close>: leading white space is skipped, a sign is read, a \<open>0x\<close> or \<open>0X\<close>
  prefix selects radix 16, and the longest run of digits of the radix is the value; no digit
  at all gives \<open>NaN\<close>, here \<open>None\<close>. Negative zero is identified with zero. The value
  is the exact integer the digits denote. JavaScript returns the nearest double, which is
  that integer when its magnitude is at most \<open>MAX_SAFE_INTEGER\<close>; statements about the
  value read are made within that range.
\<close>

definition MAX_SAFE_INTEGER :: int where
  "MAX_SAFE_INTEGER = 2 ^ 53 - 1"

text \<open>The stages of \<open>parseInt\<close>: the sign, then the digits in radix 10 or 16.\<close>

definition strip_sign :: "string \<Rightarrow> bool \<times> string" where
  "strip_sign S =
     (case S of
        [] \<Rightarrow> (False, S)
      | c # r \<Rightarrow> if c = CHR ''-'' then (True, r) else if c = CHR ''+'' then (False, r) else (False, S))"

definition parse_digits :: "string \<Rightarrow> nat option" where
  "parse_digits S1 =
     (let hex = (take 2 S1 = ''0x'' \<or> take 2 S1 = ''0X'');
          R = (if hex then 16 else 10);
          S2 = (if hex then drop 2 S1 else S1);
          Z = takeWhile (is_digit R) S2
      in if Z = [] then None else Some (digits_value R Z))"

definition parseInt :: "string \<Rightarrow> int option" where
  "parseInt inputString =
     (case strip_sign (dropWhile is_ws inputString) of
        (neg, S1) \<Rightarrow>
          (case parse_digits S1 of
             None \<Rightarrow> None
           | Some mathInt \<Rightarrow> Some ((if neg then - 1 else 1) * int mathInt)))"

text \<open>A decimal digit character, for reasoning about decimal renderings.\<close>

definition is_dec :: "char \<Rightarrow> bool" where
  "is_dec c = (48 \<le> (of_char c :: nat) \<and> (of_char c :: nat) \<le> 57)"

subsection \<open>Command line\<close>

definition DEFAULT_ITERATIONS :: int where
  "DEFAULT_ITERATIONS = 50"

text \<open>
  \<open>args[0]\<close> of \<open>process.argv.slice(2)\<close>: absent is \<open>undefined\<close>, which
  \<open>parseInt\<close> first converts to the string \<open>undefined\<close>.
\<close>

definition arg_at :: "string list \<Rightarrow> nat \<Rightarrow> string option" where
  "arg_at args k = (if k < length args then Some (args ! k) else None)"

definition parseInt_arg :: "string option \<Rightarrow> int option" where
  "parseInt_arg a = (case a of None \<Rightarrow> parseInt ''undefined'' | Some s \<Rightarrow> parseInt s)"

text \<open>\<open>parseInt(args[0]) || DEFAULT_ITERATIONS\<close>: \<open>NaN\<close> and \<open>0\<close> are falsy.\<close>

definition iterations_of :: "string list \<Rightarrow> int" where
  "iterations_of args =
     (case parseInt_arg (arg_at args 0) of
        None \<Rightarrow> DEFAULT_ITERATIONS
      | Some n \<Rightarrow> if n \<noteq> 0 then n else DEFAULT_ITERATIONS)"


text \<open>\<open>args[1] || DEFAULT_TEST_URL\<close>: an absent or empty argument is falsy.\<close>

definition DEFAULT_TEST_URL :: "string \<Rightarrow> string" where
  \<comment> \<open>the argument stands for \<open>path.join(__dirname, 'test-react-inputs.html')\<close>\<close>
  "DEFAULT_TEST_URL fixture_path = ''file://'' @ fixture_path"

definition testUrl_of :: "string \<Rightarrow> string list \<Rightarrow> string" where
  "testUrl_of fixture_path args =
     (case arg_at args 1 of
        None \<Rightarrow> DEFAULT_TEST_URL fixture_path
      | Some u \<Rightarrow> if u \<noteq> [] then u else DEFAULT_TEST_URL fixture_path)"

definition startsWith :: "string \<Rightarrow> string \<Rightarrow> bool" where
  "startsWith s p = (take (length p) s = p)"

subsection \<open>\<open>JSON.stringify\<close> of a string\<close>

definition hex_digit :: "nat \<Rightarrow> char" where
  "hex_digit d = ''0123456789abcdef'' ! d"

definition json_escape :: "char \<Rightarrow> string" where
  "json_escape c =
     (if c = CHR 0x22 then [CHR 0x5C, CHR 0x22]
      else if c = CHR 0x5C then [CHR 0x5C, CHR 0x5C]
      else if c = CHR 0x08 then [CHR 0x5C, CHR ''b'']
      else if c = CHR 0x0C then [CHR 0x5C, CHR ''f'']
      else if c = CHR 0x0A then [CHR 0x5C, CHR ''n'']
      else if c = CHR 0x0D then [CHR 0x5C, CHR ''r'']
      else if c = CHR 0x09 then [CHR 0x5C, CHR ''t'']
      else if (of_char c :: nat) < 32
        then [CHR 0x5C, CHR ''u'', CHR ''0'', CHR ''0'',
              hex_digit ((of_char c :: nat) div 16), hex_digit ((of_char c :: nat) mod 16)]
      else [c])"

definition JSON_stringify :: "string \<Rightarrow> string" where
  "JSON_stringify s = CHR 0x22 # concat (map json_escape s) @ [CHR 0x22]"

subsection \<open>\<open>String.prototype.replace\<close> with the pattern \<open>/\/[^/]*$/\<close>\<close>

text \<open>
  The leftmost position where the pattern matches is a slash with no slash after it; the
  match runs to the end of the string and is replaced by the empty string. With no slash at
  all nothing matches and the string is returned as it is.
\<close>

fun replace_last_segment :: "string \<Rightarrow> string" where
  "replace_last_segment [] = []"
| "replace_last_segment (c # cs) =
     (if c = CHR ''/'' \<and> CHR ''/'' \<notin> set cs then [] else c # replace_last_segment cs)"

section \<open>The automation client\<close>

text \<open>
  The library \<open>chrome-ws-lib.js\<close> is an external collaborator. It is a parameter of the
  model: a function from the call and the client's own state to either a returned value or a
  thrown error, and the next state. A thrown error is represented by its \<open>message\<close>, the
  only part of it the harness reads. The world the harness runs in is the client's state and
  the trace of the calls made so far. The pauses (\<open>sleep\<close>) and the console lines other
  than the final rate (among them the failures grouped by test name) have no effect on the
  counters, the calls or the exit code and are left out.
\<close>

datatype call =
    InitializeSession
  | Navigate jsval string
  | Click jsval string
  | Fill jsval string string
  | Eval jsval string

datatype response = Return jsval | Throw string

type_synonym 's client = "call \<Rightarrow> 's \<Rightarrow> response \<times> 's"

record 's world =
  cstate :: 's
  trace :: "call list"

definition invoke :: "'s client \<Rightarrow> call \<Rightarrow> 's world \<Rightarrow> response \<times> 's world" where
  "invoke chromeWs c w =
     (case chromeWs c (cstate w) of (r, s') \<Rightarrow> (r, \<lparr>cstate = s', trace = trace w @ [c]\<rparr>))"

section \<open>Test steps\<close>

datatype outcome = Success "jsval option" | Failure string

definition testClick :: "'s client \<Rightarrow> jsval \<Rightarrow> string \<Rightarrow> 's world \<Rightarrow> outcome \<times> 's world" where
  "testClick chromeWs tabIndex selector w =
     (case invoke chromeWs (Click tabIndex selector) w of
        (Throw m, w1) \<Rightarrow> (Failure m, w1)
      | (Return _, w1) \<Rightarrow> (Success None, w1))"

definition readback_script :: "string \<Rightarrow> string" where
  "readback_script selector =
     ''document.querySelector('' @ JSON_stringify selector @ '')?.value || '' @ [CHR 0x27, CHR 0x27]"

definition testType ::
  "'s client \<Rightarrow> jsval \<Rightarrow> string \<Rightarrow> string \<Rightarrow> 's world \<Rightarrow> outcome \<times> 's world" where
  "testType chromeWs tabIndex selector text w =
     (case invoke chromeWs (Fill tabIndex text selector) w of
        (Throw m, w1) \<Rightarrow> (Failure m, w1)
      | (Return _, w1) \<Rightarrow>
          (case invoke chromeWs (Eval tabIndex (readback_script selector)) w1 of
             (Throw m, w2) \<Rightarrow> (Failure m, w2)
           | (Return v, w2) \<Rightarrow>
               if truthy v \<and> length_gt0 v then (Success (Some v), w2)
               else (Failure (''Value not set. Expected text, got: '' @ [CHR 0x22] @ to_string v
                              @ [CHR 0x22]), w2)))"

definition testTypeAndEnter ::
  "'s client \<Rightarrow> jsval \<Rightarrow> string \<Rightarrow> string \<Rightarrow> 's world \<Rightarrow> outcome \<times> 's world" where
  "testTypeAndEnter chromeWs tabIndex selector text w =
     (case invoke chromeWs (Fill tabIndex (text @ [CHR 0x5C, CHR ''n'']) selector) w of
        (Throw m, w1) \<Rightarrow> (Failure m, w1)
      | (Return _, w1) \<Rightarrow> (Success None, w1))"

definition testXPathClick :: "'s client \<Rightarrow> jsval \<Rightarrow> string \<Rightarrow> 's world \<Rightarrow> outcome \<times> 's world" where
  "testXPathClick chromeWs tabIndex xpath w =
     (case invoke chromeWs (Click tabIndex xpath) w of
        (Throw m, w1) \<Rightarrow> (Failure m, w1)
      | (Return _, w1) \<Rightarrow> (Success None, w1))"

definition clear_script :: string where
  "clear_script =
     [CHR 0x0A] @ ''    document.querySelectorAll('' @ [CHR 0x27] @ ''input, textarea'' @ [CHR 0x27]
       @ '').forEach(el => {'' @ [CHR 0x0A]
     @ ''      el.value = '' @ [CHR 0x27, CHR 0x27] @ '';'' @ [CHR 0x0A]
     @ ''      el.dispatchEvent(new Event('' @ [CHR 0x27] @ ''input'' @ [CHR 0x27]
       @ '', { bubbles: true }));'' @ [CHR 0x0A]
     @ ''    });'' @ [CHR 0x0A] @ ''  ''"

text \<open>\<open>clearTestPage\<close> has no handler of its own: what the client throws, it throws.\<close>

definition clearTestPage :: "'s client \<Rightarrow> jsval \<Rightarrow> 's world \<Rightarrow> response \<times> 's world" where
  "clearTestPage chromeWs tabIndex w = invoke chromeWs (Eval tabIndex clear_script) w"


text \<open>The \<open>success\<close> field of a step's result.\<close>

fun success :: "outcome \<Rightarrow> bool" where
  "success (Success v) = True"
| "success (Failure msg) = False"

section \<open>Results tracking\<close>

record failure_record =
  iteration :: int
  test :: string
  error :: string

record results =
  passed :: nat
  failed :: nat
  errors :: "failure_record list"

definition results0 :: results where
  "results0 = \<lparr>passed = 0, failed = 0, errors = []\<rparr>"

section \<open>The fixed-page suite\<close>

text \<open>
  The closures of the \<open>tests\<close> array, as data: each is a call of \<open>testClick\<close> or of
  \<open>testType\<close> with its selector and, for typing, its text.
\<close>

datatype test_fn = TestClick string | TestType string string

definition tests :: "int \<Rightarrow> (string \<times> test_fn) list" where
  "tests i =
     [(''Click button'', TestClick ''#test-button''),
      (''Type in controlled input'', TestType ''#controlled-input'' (''test'' @ string_of_int i)),
      (''Type in uncontrolled input'', TestType ''#uncontrolled-input'' (''test'' @ string_of_int i)),
      (''Type in validated input'', TestType ''#validated-input'' ''abc''),
      (''Type in nested input'', TestType ''#nested-input'' (''test'' @ string_of_int i)),
      (''Type in transform input'', TestType ''#transform-input'' ''hello''),
      (''Type in debounced input'', TestType ''#debounced-input'' (''test'' @ string_of_int i)),
      (''Type in email input'', TestType ''#email-input'' ''test@example.com''),
      (''Type in textarea'', TestType ''#controlled-textarea''
                               (''line1'' @ [CHR 0x5C] @ ''nline2''))]"

fun run_fn :: "'s client \<Rightarrow> jsval \<Rightarrow> test_fn \<Rightarrow> 's world \<Rightarrow> outcome \<times> 's world" where
  "run_fn chromeWs tabIndex (TestClick selector) w = testClick chromeWs tabIndex selector w"
| "run_fn chromeWs tabIndex (TestType selector text) w = testType chromeWs tabIndex selector text w"

text \<open>The payload handed to each typing step, by step name.\<close>

fun typing_payloads :: "(string \<times> test_fn) list \<Rightarrow> (string \<times> string) list" where
  "typing_payloads [] = []"
| "typing_payloads ((name, TestClick selector) # ts) = typing_payloads ts"
| "typing_payloads ((name, TestType selector text) # ts) = (name, text) # typing_payloads ts"

text \<open>
  The body of the loop over \<open>tests\<close> in \<open>runIteration\<close>: run the step, push its result,
  and count it in the global \<open>results\<close>.
\<close>

definition count_result :: "int \<Rightarrow> string \<Rightarrow> outcome \<Rightarrow> results \<Rightarrow> results" where
  "count_result i name result res =
     (case result of
        Failure msg \<Rightarrow>
          res\<lparr>failed := failed res + 1,
              errors := errors res @ [\<lparr>iteration = i, test = name, error = msg\<rparr>]\<rparr>
      | Success _ \<Rightarrow> res\<lparr>passed := passed res + 1\<rparr>)"

fun run_tests ::
  "'s client \<Rightarrow> jsval \<Rightarrow> int \<Rightarrow> (string \<times> test_fn) list \<Rightarrow>
   (string \<times> outcome) list \<times> results \<times> 's world \<Rightarrow> (string \<times> outcome) list \<times> results \<times> 's world" where
  "run_tests chromeWs tabIndex i [] st = st"
| "run_tests chromeWs tabIndex i ((name, fn) # ts) (iterationResults, res, w) =
     (case run_fn chromeWs tabIndex fn w of
        (result, w1) \<Rightarrow>
          run_tests chromeWs tabIndex i ts
            (iterationResults @ [(name, result)], count_result i name result res, w1))"

definition runIteration ::
  "'s client \<Rightarrow> jsval \<Rightarrow> int \<Rightarrow> results \<times> 's world \<Rightarrow> (string \<times> outcome) list \<times> results \<times> 's world" where
  "runIteration chromeWs tabIndex i st = run_tests chromeWs tabIndex i (tests i) ([], st)"

section \<open>The live-application suite\<close>

definition new_org_xpath :: string where
  "new_org_xpath = ''//a[text()='' @ [CHR 0x27] @ ''New Organization'' @ [CHR 0x27]
     @ ''] | //button[text()='' @ [CHR 0x27] @ ''New Organization'' @ [CHR 0x27] @ '']''"

definition org_input_selector :: string where
  "org_input_selector = ''form input[type='' @ [CHR 0x22] @ ''text'' @ [CHR 0x22] @ '']''"

definition cancel_selector :: string where
  "cancel_selector = ''button[type='' @ [CHR 0x27] @ ''button'' @ [CHR 0x27] @ '']''"

text \<open>One wrapped block of \<open>runLiveAppTests\<close>: the call, and the entry pushed for it.\<close>

definition attempt :: "'s client \<Rightarrow> call \<Rightarrow> 's world \<Rightarrow> outcome \<times> 's world" where
  "attempt chromeWs c w =
     (case invoke chromeWs c w of
        (Throw m, w1) \<Rightarrow> (Failure m, w1)
      | (Return _, w1) \<Rightarrow> (Success None, w1))"

definition runLiveAppTests ::
  "'s client \<Rightarrow> jsval \<Rightarrow> string \<Rightarrow> int \<Rightarrow> 's world \<Rightarrow> (string \<times> outcome) list \<times> 's world" where
  "runLiveAppTests chromeWs tabIndex baseUrl i w =
     (case attempt chromeWs (Navigate tabIndex (baseUrl @ ''/settings'')) w of
        (Failure m, w1) \<Rightarrow> ([(''Navigate to settings'', Failure m)], w1)
      | (Success v, w1) \<Rightarrow>
          (case attempt chromeWs (Click tabIndex new_org_xpath) w1 of
             (r2, w2) \<Rightarrow>
               (case attempt chromeWs (Fill tabIndex (''TestOrg'' @ string_of_int i) org_input_selector) w2 of
                  (r3, w3) \<Rightarrow>
                    (case attempt chromeWs (Click tabIndex cancel_selector) w3 of
                       (r4, w4) \<Rightarrow>
                         ([(''Navigate to settings'', Success v),
                           (''Click New Organization (XPath)'', r2),
                           (''Type org name'', r3),
                           (''Click Cancel'', r4)], w4)))))"

text \<open>The loop of \<open>main\<close> over the entries one live-application iteration returned.\<close>

fun record_all :: "int \<Rightarrow> (string \<times> outcome) list \<Rightarrow> results \<Rightarrow> results" where
  "record_all i [] res = res"
| "record_all i ((name, Success v) # rs) res = record_all i rs (res\<lparr>passed := passed res + 1\<rparr>)"
| "record_all i ((name, Failure msg) # rs) res =
     record_all i rs
       (res\<lparr>failed := failed res + 1,
            errors := errors res @ [\<lparr>iteration = i, test = name, error = msg\<rparr>]\<rparr>)"


section \<open>The failure rate of the report\<close>

text \<open>
  A JavaScript number as far as the rate needs it: the quotient of two counters is a
  non-negative rational, \<open>NaN\<close> (zero by zero) or \<open>Infinity\<close> (positive by zero).
  Rationals are exact here; a double is not, which matters to the printed digit only where
  the true value lies within rounding error of a tie.
\<close>

datatype jsnum = NaN | PosInf | Fin rat

definition js_div :: "nat \<Rightarrow> nat \<Rightarrow> jsnum" where
  "js_div a b = (if b = 0 then (if a = 0 then NaN else PosInf) else Fin (of_nat a / of_nat b))"

definition js_times :: "jsnum \<Rightarrow> nat \<Rightarrow> jsnum" where
  "js_times x k = (case x of NaN \<Rightarrow> NaN | PosInf \<Rightarrow> (if k = 0 then NaN else PosInf) | Fin q \<Rightarrow> Fin (q * of_nat k))"

text \<open>
  \<open>x.toFixed(1)\<close> for \<open>x\<close> below \<open>10^21\<close> in magnitude: the integer \<open>n\<close> with \<open>n / 10\<close>
  nearest to \<open>x\<close>, the larger of two at a tie, printed with a point before its last digit.
\<close>

definition toFixed1_nonneg :: "rat \<Rightarrow> string" where
  "toFixed1_nonneg x =
     (let n = nat \<lfloor>x * 10 + 1 / 2\<rfloor>;
          m = string_of_nat n;
          m' = (if length m \<le> 1 then replicate (2 - length m) CHR ''0'' @ m else m);
          k = length m'
      in take (k - 1) m' @ ''.'' @ drop (k - 1) m')"

definition toFixed1 :: "jsnum \<Rightarrow> string" where
  "toFixed1 x =
     (case x of
        NaN \<Rightarrow> ''NaN''
      | PosInf \<Rightarrow> ''Infinity''
      | Fin q \<Rightarrow> if q < 0 then CHR ''-'' # toFixed1_nonneg (- q) else toFixed1_nonneg q)"

definition failRate :: "results \<Rightarrow> string" where
  "failRate res = toFixed1 (js_times (js_div (failed res) (passed res + failed res)) 100)"

section \<open>The main runner\<close>

text \<open>
  One pass of the loop body for iteration \<open>i\<close>. In test-page mode the inputs are cleared
  first; an error thrown there leaves \<open>main\<close> (left injection, with the state reached).
\<close>

definition iteration_body ::
  "'s client \<Rightarrow> jsval \<Rightarrow> string \<Rightarrow> bool \<Rightarrow> int \<Rightarrow> results \<times> 's world \<Rightarrow>
   (string \<times> results \<times> 's world) + (results \<times> 's world)" where
  "iteration_body chromeWs tabIndex testUrl isLiveApp i st =
     (case st of (res, w) \<Rightarrow>
        if isLiveApp then
          (case runLiveAppTests chromeWs tabIndex (replace_last_segment testUrl) i w of
             (iterResults, w1) \<Rightarrow> Inr (record_all i iterResults res, w1))
        else
          (case clearTestPage chromeWs tabIndex w of
             (Throw m, w1) \<Rightarrow> Inl (m, res, w1)
           | (Return _, w1) \<Rightarrow>
               (case runIteration chromeWs tabIndex i (res, w1) of
                  (iterationResults, res', w2) \<Rightarrow> Inr (res', w2))))"

text \<open>\<open>for (let i = 1; i <= iterations; i++)\<close>, entered at \<open>i\<close>.\<close>

function run_iterations ::
  "'s client \<Rightarrow> jsval \<Rightarrow> string \<Rightarrow> bool \<Rightarrow> int \<Rightarrow> int \<Rightarrow> results \<times> 's world \<Rightarrow>
   (string \<times> results \<times> 's world) + (results \<times> 's world)" where
  "run_iterations chromeWs tabIndex testUrl isLiveApp i iterations st =
     (if i \<le> iterations then
        (case iteration_body chromeWs tabIndex testUrl isLiveApp i st of
           Inl e \<Rightarrow> Inl e
         | Inr st' \<Rightarrow> run_iterations chromeWs tabIndex testUrl isLiveApp (i + 1) iterations st')
      else Inr st)"
  by pat_completeness auto
termination
  by (relation "measure (\<lambda>(chromeWs, tabIndex, testUrl, isLiveApp, i, iterations, st). nat (iterations + 1 - i))") auto

declare run_iterations.simps [simp del]

text \<open>
  How a run ends: the two fatal setup errors, an error escaping \<open>main\<close> into the
  \<open>catch\<close> of its caller, or the report with the printed failure rate.
\<close>

datatype ending = ConnectFailed string | LoadFailed string | FatalError string | Reported string

record 's run =
  ending :: ending
  exit_code :: nat
  final :: results
  world :: "'s world"

definition main :: "'s client \<Rightarrow> string \<Rightarrow> string list \<Rightarrow> 's \<Rightarrow> 's run" where
  "main chromeWs fixture_path args s0 =
     (let iterations = iterations_of args;
          testUrl = testUrl_of fixture_path args;
          isLiveApp = startsWith testUrl ''http://localhost'';
          w0 = \<lparr>cstate = s0, trace = []\<rparr>
      in case invoke chromeWs InitializeSession w0 of
           (Throw m, w1) \<Rightarrow>
             \<lparr>ending = ConnectFailed m, exit_code = 1, final = results0, world = w1\<rparr>
         | (Return tabIndex, w1) \<Rightarrow>
             (case invoke chromeWs (Navigate tabIndex testUrl) w1 of
                (Throw m, w2) \<Rightarrow>
                  \<lparr>ending = LoadFailed m, exit_code = 1, final = results0, world = w2\<rparr>
              | (Return _, w2) \<Rightarrow>
                  (case run_iterations chromeWs tabIndex testUrl isLiveApp 1 iterations (results0, w2) of
                     Inl (m, res, w3) \<Rightarrow>
                       \<lparr>ending = FatalError m, exit_code = 1, final = res, world = w3\<rparr>
                   | Inr (res, w3) \<Rightarrow>
                       \<lparr>ending = Reported (failRate res),
                        exit_code = (if 0 < failed res then 1 else 0),
                        final = res, world = w3\<rparr>)))"


section \<open>Concrete clients used to run the model\<close>

text \<open>A client on which every call returns, read-backs with a one-character string.\<close>

definition ok_client :: "unit client" where
  "ok_client c s = (Return (JStr ''x''), s)"

text \<open>
  A client that counts the input-clearing scripts it has evaluated and throws on the one
  numbered \<open>k\<close> (from zero); every other call returns.
\<close>

definition clear_fails_at :: "nat \<Rightarrow> nat client" where
  "clear_fails_at k c s =
     (case c of
        Eval t scr \<Rightarrow>
          if scr = clear_script then (if s = k then Throw ''boom'' else Return JUndefined, s + 1)
          else (Return (JStr ''x''), s)
      | _ \<Rightarrow> (Return JUndefined, s))"

text \<open>A client whose navigation to a \<open>/settings\<close> page throws; every other call returns.\<close>

definition nav_fails :: "unit client" where
  "nav_fails c s =
     (case c of
        Navigate t url \<Rightarrow>
          if url = ''http://localhost:8080/settings'' then (Throw ''net::ERR_ABORTED'', s)
          else (Return JUndefined, s)
      | _ \<Rightarrow> (Return JUndefined, s))"


section \<open>Decimal rendering and \<open>parseInt\<close>\<close>

lemma digit_char_eval:
  "digit_char 0 = CHR ''0''" "digit_char 1 = CHR ''1''" "digit_char 2 = CHR ''2''"
  "digit_char 3 = CHR ''3''" "digit_char 4 = CHR ''4''" "digit_char 5 = CHR ''5''"
  "digit_char 6 = CHR ''6''" "digit_char 7 = CHR ''7''" "digit_char 8 = CHR ''8''"
  "digit_char 9 = CHR ''9''" "digit_char (Suc 0) = CHR ''1''"
  by code_simp+

lemma of_char_digit_char: "d < 10 \<Longrightarrow> of_char (digit_char d) = 48 + d"
  by (simp add: digit_char_def)

lemma digit_val_digit_char: "d < 10 \<Longrightarrow> digit_val (digit_char d) = Some d"
  by (simp add: digit_val_def of_char_digit_char)

lemma is_dec_digit_char: "d < 10 \<Longrightarrow> is_dec (digit_char d)"
  by (simp add: is_dec_def of_char_digit_char)

lemma is_dec_is_digit: "is_dec c \<Longrightarrow> is_digit 10 c"
  by (auto simp: is_dec_def is_digit_def digit_val_def Let_def)

lemma is_dec_not_ws: "is_dec c \<Longrightarrow> \<not> is_ws c"
  by (auto simp: is_dec_def is_ws_def)

lemma is_dec_neq:
  "is_dec c \<Longrightarrow> c \<noteq> CHR ''-''" "is_dec c \<Longrightarrow> c \<noteq> CHR ''+''"
  "is_dec c \<Longrightarrow> c \<noteq> CHR ''x''" "is_dec c \<Longrightarrow> c \<noteq> CHR ''X''"
  by (auto simp: is_dec_def)

lemma string_of_nat_all_dec: "list_all is_dec (string_of_nat n)"
proof (induction n rule: string_of_nat.induct)
  case (1 n)
  show ?case
  proof (cases "n < 10")
    case True
    then show ?thesis by (subst string_of_nat.simps) (simp add: is_dec_digit_char)
  next
    case False
    have "n mod 10 < 10" by simp
    with False 1 show ?thesis
      by (subst string_of_nat.simps) (simp add: is_dec_digit_char)
  qed
qed

lemma string_of_nat_not_Nil: "string_of_nat n \<noteq> []"
  by (subst string_of_nat.simps) simp

lemma digits_value_snoc: "digits_value R (Z @ [c]) = digits_value R Z * R + the (digit_val c)"
  by (simp add: digits_value_def)

lemma digits_value_string_of_nat: "digits_value 10 (string_of_nat n) = n"
proof (induction n rule: string_of_nat.induct)
  case (1 n)
  show ?case
  proof (cases "n < 10")
    case True
    then show ?thesis
      by (subst string_of_nat.simps) (simp add: digits_value_def digit_val_digit_char)
  next
    case False
    have "n mod 10 < 10" by simp
    then have "the (digit_val (digit_char (n mod 10))) = n mod 10"
      by (simp add: digit_val_digit_char)
    with False 1 show ?thesis
      by (subst string_of_nat.simps) (simp add: digits_value_snoc)
  qed
qed

lemma parse_digits_dec:
  assumes "list_all is_dec ds" and "ds \<noteq> []"
  shows "parse_digits ds = Some (digits_value 10 ds)"
proof -
  from assms(1) have alld: "\<And>x. x \<in> set ds \<Longrightarrow> is_dec x"
    by (simp add: list_all_iff)
  have nox: "CHR ''x'' \<notin> set ds" "CHR ''X'' \<notin> set ds"
    using alld is_dec_neq by blast+
  have "take 2 ds \<noteq> ''0x''"
  proof
    assume "take 2 ds = ''0x''"
    then have "CHR ''x'' \<in> set (take 2 ds)" by simp
    with nox show False by (auto dest: in_set_takeD)
  qed
  moreover have "take 2 ds \<noteq> ''0X''"
  proof
    assume "take 2 ds = ''0X''"
    then have "CHR ''X'' \<in> set (take 2 ds)" by simp
    with nox show False by (auto dest: in_set_takeD)
  qed
  ultimately have hex: "(take 2 ds = ''0x'' \<or> take 2 ds = ''0X'') = False" by simp
  have tw: "takeWhile (is_digit 10) ds = ds"
    using alld by (auto simp: takeWhile_eq_all_conv is_dec_is_digit)
  show ?thesis
    unfolding parse_digits_def Let_def hex using assms(2) by (simp add: tw)
qed

lemma strip_sign_dec: "is_dec c \<Longrightarrow> strip_sign (c # r) = (False, c # r)"
  by (simp add: strip_sign_def is_dec_neq)

lemma parseInt_digits:
  assumes "list_all is_dec ds" and "ds \<noteq> []"
  shows "parseInt ds = Some (int (digits_value 10 ds))"
    and "parseInt (CHR ''-'' # ds) = Some (- int (digits_value 10 ds))"
proof -
  from assms obtain c r where ds: "ds = c # r" and c: "is_dec c" by (cases ds) auto
  have "dropWhile is_ws ds = ds" using c ds by (simp add: is_dec_not_ws)
  moreover have "strip_sign ds = (False, ds)" using c ds by (simp add: strip_sign_dec)
  ultimately show "parseInt ds = Some (int (digits_value 10 ds))"
    by (simp add: parseInt_def parse_digits_dec[OF assms])
  have "\<not> is_ws CHR ''-''" by (simp add: is_ws_def)
  then have "dropWhile is_ws (CHR ''-'' # ds) = CHR ''-'' # ds" by simp
  moreover have "strip_sign (CHR ''-'' # ds) = (True, ds)" by (simp add: strip_sign_def)
  ultimately show "parseInt (CHR ''-'' # ds) = Some (- int (digits_value 10 ds))"
    by (simp add: parseInt_def parse_digits_dec[OF assms])
qed

lemma parseInt_string_of_int: "parseInt (string_of_int i) = Some i"
proof (cases "i < 0")
  case True
  then show ?thesis
    using parseInt_digits(2)[OF string_of_nat_all_dec[of "nat (- i)"] string_of_nat_not_Nil[of "nat (- i)"]]
    by (simp add: string_of_int_def digits_value_string_of_nat)
next
  case False
  then show ?thesis
    using parseInt_digits(1)[OF string_of_nat_all_dec[of "nat i"] string_of_nat_not_Nil[of "nat i"]]
    by (simp add: string_of_int_def digits_value_string_of_nat)
qed

lemma string_of_int_inj: "string_of_int i = string_of_int j \<Longrightarrow> i = j"
  by (metis option.inject parseInt_string_of_int)

section \<open>Payloads of the typing steps\<close>

lemma typing_payloads_tests:
  "typing_payloads (tests i) =
     [(''Type in controlled input'', ''test'' @ string_of_int i),
      (''Type in uncontrolled input'', ''test'' @ string_of_int i),
      (''Type in validated input'', ''abc''),
      (''Type in nested input'', ''test'' @ string_of_int i),
      (''Type in transform input'', ''hello''),
      (''Type in debounced input'', ''test'' @ string_of_int i),
      (''Type in email input'', ''test@example.com''),
      (''Type in textarea'', ''line1'' @ [CHR 0x5C] @ ''nline2'')]"
  by (simp add: tests_def)

text \<open>
  C3, as stated, fails: the typing step for the validated input is handed the text \<open>abc\<close>
  in iteration 1 and in iteration 2 alike, so not every typing step's payload embeds the
  iteration index.
\<close>

theorem typing_payload_constant_counterexample:
  "(1::int) \<noteq> 2 \<and>
   map_of (typing_payloads (tests 1)) ''Type in validated input'' = Some ''abc'' \<and>
   map_of (typing_payloads (tests 2)) ''Type in validated input'' = Some ''abc''"
  by (simp add: typing_payloads_tests)

text \<open>
  C3 (amended): of the eight typing steps of the fixed-page suite, the four for the
  controlled, uncontrolled, nested and debounced inputs are handed the text \<open>test\<close>
  followed by the decimal iteration index, so their payloads differ between any two distinct
  iterations; the four for the validated, transform and email inputs and the textarea are
  handed a fixed text that is the same in every iteration.
\<close>

theorem typing_payloads_by_iteration:
  assumes "i \<noteq> j"
  shows "(\<forall>name \<in> {''Type in controlled input'', ''Type in uncontrolled input'',
                    ''Type in nested input'', ''Type in debounced input''}.
            map_of (typing_payloads (tests i)) name = Some (''test'' @ string_of_int i) \<and>
            map_of (typing_payloads (tests i)) name \<noteq> map_of (typing_payloads (tests j)) name) \<and>
         (\<forall>name \<in> {''Type in validated input'', ''Type in transform input'',
                    ''Type in email input'', ''Type in textarea''}.
            map_of (typing_payloads (tests i)) name \<noteq> None \<and>
            map_of (typing_payloads (tests i)) name = map_of (typing_payloads (tests j)) name) \<and>
         map fst (typing_payloads (tests i)) =
           [''Type in controlled input'', ''Type in uncontrolled input'', ''Type in validated input'',
            ''Type in nested input'', ''Type in transform input'', ''Type in debounced input'',
            ''Type in email input'', ''Type in textarea''] \<and>
         map_of (typing_payloads (tests i)) ''Type in validated input'' = Some ''abc'' \<and>
         map_of (typing_payloads (tests i)) ''Type in transform input'' = Some ''hello'' \<and>
         map_of (typing_payloads (tests i)) ''Type in email input'' = Some ''test@example.com'' \<and>
         map_of (typing_payloads (tests i)) ''Type in textarea'' = Some (''line1'' @ [CHR 0x5C] @ ''nline2'')"
proof -
  from assms have "string_of_int i \<noteq> string_of_int j"
    by (auto dest: string_of_int_inj)
  then show ?thesis
    by (simp add: typing_payloads_tests)
qed

text \<open>C3 (amended), at iterations 1 and 2.\<close>

theorem typing_payloads_by_iteration_witness:
  "(1::int) \<noteq> 2 \<and>
   map_of (typing_payloads (tests 1)) ''Type in nested input'' = Some (''test'' @ string_of_int 1) \<and>
   map_of (typing_payloads (tests 1)) ''Type in nested input''
     \<noteq> map_of (typing_payloads (tests 2)) ''Type in nested input'' \<and>
   map_of (typing_payloads (tests 1)) ''Type in email input''
     = map_of (typing_payloads (tests 2)) ''Type in email input''"
proof -
  have h: "(1::int) \<noteq> 2" by simp
  show ?thesis using h typing_payloads_by_iteration [OF h] by blast
qed

section \<open>Calls, traces and counters\<close>

lemma invoke_trace: "trace (snd (invoke chromeWs c w)) = trace w @ [c]"
  by (simp add: invoke_def split: prod.splits)

lemma invoke_cases:
  obtains (throws) m w1 where "invoke chromeWs c w = (Throw m, w1)" "trace w1 = trace w @ [c]"
        | (returns) v w1 where "invoke chromeWs c w = (Return v, w1)" "trace w1 = trace w @ [c]"
proof -
  obtain r w1 where eq: "invoke chromeWs c w = (r, w1)" by (cases "invoke chromeWs c w")
  with invoke_trace[of chromeWs c w] have "trace w1 = trace w @ [c]" by simp
  with eq show ?thesis by (cases r) (auto intro: throws returns)
qed

lemma attempt_Throw:
  "invoke chromeWs c w = (Throw m, w1) \<Longrightarrow> attempt chromeWs c w = (Failure m, w1)"
  by (simp add: attempt_def)

lemma attempt_Return:
  "invoke chromeWs c w = (Return v, w1) \<Longrightarrow> attempt chromeWs c w = (Success None, w1)"
  by (simp add: attempt_def)

lemma attempt_trace: "trace (snd (attempt chromeWs c w)) = trace w @ [c]"
  by (cases rule: invoke_cases[of chromeWs c w]) (simp_all add: attempt_def)

lemma count_result_success:
  "success r \<Longrightarrow> count_result i name r res = res\<lparr>passed := passed res + 1\<rparr>"
  by (cases r) (simp_all add: count_result_def)

lemma count_result_failure:
  "count_result i name (Failure m) res =
     res\<lparr>failed := failed res + 1, errors := errors res @ [\<lparr>iteration = i, test = name, error = m\<rparr>]\<rparr>"
  by (simp add: count_result_def)

lemma record_all_counts:
  "passed (record_all i rs res) + failed (record_all i rs res) = passed res + failed res + length rs \<and>
   passed res \<le> passed (record_all i rs res) \<and>
   failed res \<le> failed (record_all i rs res) \<and>
   length (errors (record_all i rs res)) + failed res = length (errors res) + failed (record_all i rs res)"
  by (induction i rs res rule: record_all.induct) auto

lemma run_tests_counts:
  "run_tests chromeWs tabIndex i ts (acc, res, w) = (acc', res', w') \<Longrightarrow>
     passed res' + failed res' = passed res + failed res + length ts \<and>
     passed res \<le> passed res' \<and> failed res \<le> failed res' \<and>
     length (errors res') + failed res = length (errors res) + failed res' \<and>
     length acc' = length acc + length ts"
proof (induction ts arbitrary: acc res w)
  case Nil
  then show ?case by simp
next
  case (Cons t ts)
  obtain name fn where t: "t = (name, fn)" by (cases t)
  obtain r w1 where r: "run_fn chromeWs tabIndex fn w = (r, w1)" by (cases "run_fn chromeWs tabIndex fn w")
  from Cons.prems t r
  have "run_tests chromeWs tabIndex i ts (acc @ [(name, r)], count_result i name r res, w1) = (acc', res', w')"
    by simp
  from Cons.IH[OF this] show ?case
    by (cases r) (auto simp: count_result_def)
qed

section \<open>The type-and-verify step\<close>








section \<open>The live-application suite, step by step\<close>

lemma runLiveAppTests_nav_throws:
  assumes "invoke chromeWs (Navigate tabIndex (baseUrl @ ''/settings'')) w = (Throw m, w1)"
  shows "runLiveAppTests chromeWs tabIndex baseUrl i w = ([(''Navigate to settings'', Failure m)], w1)"
  by (simp add: runLiveAppTests_def attempt_Throw[OF assms])

lemma runLiveAppTests_nav_returns:
  assumes "invoke chromeWs (Navigate tabIndex (baseUrl @ ''/settings'')) w = (Return v, w1)"
  shows "\<exists>r2 r3 r4 w4.
           runLiveAppTests chromeWs tabIndex baseUrl i w =
             ([(''Navigate to settings'', Success None), (''Click New Organization (XPath)'', r2),
               (''Type org name'', r3), (''Click Cancel'', r4)], w4) \<and>
           trace w4 = trace w1 @ [Click tabIndex new_org_xpath,
                                  Fill tabIndex (''TestOrg'' @ string_of_int i) org_input_selector,
                                  Click tabIndex cancel_selector]"
proof -
  obtain r2 w2 where a2: "attempt chromeWs (Click tabIndex new_org_xpath) w1 = (r2, w2)"
    by (cases "attempt chromeWs (Click tabIndex new_org_xpath) w1")
  obtain r3 w3 where a3:
    "attempt chromeWs (Fill tabIndex (''TestOrg'' @ string_of_int i) org_input_selector) w2 = (r3, w3)"
    by (cases "attempt chromeWs (Fill tabIndex (''TestOrg'' @ string_of_int i) org_input_selector) w2")
  obtain r4 w4 where a4: "attempt chromeWs (Click tabIndex cancel_selector) w3 = (r4, w4)"
    by (cases "attempt chromeWs (Click tabIndex cancel_selector) w3")
  have t2: "trace w2 = trace w1 @ [Click tabIndex new_org_xpath]"
    using attempt_trace[of chromeWs "Click tabIndex new_org_xpath" w1] a2 by simp
  have t3: "trace w3 = trace w2 @ [Fill tabIndex (''TestOrg'' @ string_of_int i) org_input_selector]"
    using attempt_trace[of chromeWs "Fill tabIndex (''TestOrg'' @ string_of_int i) org_input_selector" w2] a3
    by simp
  have t4: "trace w4 = trace w3 @ [Click tabIndex cancel_selector]"
    using attempt_trace[of chromeWs "Click tabIndex cancel_selector" w3] a4 by simp
  have "runLiveAppTests chromeWs tabIndex baseUrl i w =
          ([(''Navigate to settings'', Success None), (''Click New Organization (XPath)'', r2),
            (''Type org name'', r3), (''Click Cancel'', r4)], w4)"
    using a2 a3 a4 by (simp add: runLiveAppTests_def attempt_Return[OF assms])
  with t2 t3 t4 show ?thesis by simp
qed

text \<open>
  C5: in the live-application suite, when the navigation call throws, the iteration returns
  exactly one entry, the failure of the navigation step, makes no further call, and the
  runner counts one failure for it; when the navigation call returns, the three remaining
  calls are all made whatever each of them does, the iteration returns exactly four entries,
  and the runner counts four outcomes.
\<close>

theorem live_iteration_outcomes:
  "(\<forall>m w1. invoke chromeWs (Navigate tabIndex (baseUrl @ ''/settings'')) w = (Throw m, w1) \<longrightarrow>
      runLiveAppTests chromeWs tabIndex baseUrl i w = ([(''Navigate to settings'', Failure m)], w1) \<and>
      trace w1 = trace w @ [Navigate tabIndex (baseUrl @ ''/settings'')] \<and>
      record_all i (fst (runLiveAppTests chromeWs tabIndex baseUrl i w)) res =
        res\<lparr>failed := failed res + 1,
            errors := errors res @ [\<lparr>iteration = i, test = ''Navigate to settings'', error = m\<rparr>]\<rparr>) \<and>
   (\<forall>v w1. invoke chromeWs (Navigate tabIndex (baseUrl @ ''/settings'')) w = (Return v, w1) \<longrightarrow>
      length (fst (runLiveAppTests chromeWs tabIndex baseUrl i w)) = 4 \<and>
      map fst (fst (runLiveAppTests chromeWs tabIndex baseUrl i w)) =
        [''Navigate to settings'', ''Click New Organization (XPath)'', ''Type org name'', ''Click Cancel''] \<and>
      trace (snd (runLiveAppTests chromeWs tabIndex baseUrl i w)) =
        trace w @ [Navigate tabIndex (baseUrl @ ''/settings''),
                   Click tabIndex new_org_xpath,
                   Fill tabIndex (''TestOrg'' @ string_of_int i) org_input_selector,
                   Click tabIndex cancel_selector] \<and>
      passed (record_all i (fst (runLiveAppTests chromeWs tabIndex baseUrl i w)) res)
        + failed (record_all i (fst (runLiveAppTests chromeWs tabIndex baseUrl i w)) res)
        = passed res + failed res + 4)"
proof (intro conjI allI impI)
  fix m w1
  assume nav: "invoke chromeWs (Navigate tabIndex (baseUrl @ ''/settings'')) w = (Throw m, w1)"
  show "runLiveAppTests chromeWs tabIndex baseUrl i w = ([(''Navigate to settings'', Failure m)], w1)"
    by (rule runLiveAppTests_nav_throws[OF nav])
  show "trace w1 = trace w @ [Navigate tabIndex (baseUrl @ ''/settings'')]"
    using invoke_trace[of chromeWs "Navigate tabIndex (baseUrl @ ''/settings'')" w] nav by simp
  show "record_all i (fst (runLiveAppTests chromeWs tabIndex baseUrl i w)) res =
        res\<lparr>failed := failed res + 1,
            errors := errors res @ [\<lparr>iteration = i, test = ''Navigate to settings'', error = m\<rparr>]\<rparr>"
    by (simp add: runLiveAppTests_nav_throws[OF nav])
next
  fix v w1
  assume nav: "invoke chromeWs (Navigate tabIndex (baseUrl @ ''/settings'')) w = (Return v, w1)"
  have t1: "trace w1 = trace w @ [Navigate tabIndex (baseUrl @ ''/settings'')]"
    using invoke_trace[of chromeWs "Navigate tabIndex (baseUrl @ ''/settings'')" w] nav by simp
  from runLiveAppTests_nav_returns[OF nav, of i] obtain r2 r3 r4 w4 where
    run: "runLiveAppTests chromeWs tabIndex baseUrl i w =
             ([(''Navigate to settings'', Success None), (''Click New Organization (XPath)'', r2),
               (''Type org name'', r3), (''Click Cancel'', r4)], w4)"
    and t4: "trace w4 = trace w1 @ [Click tabIndex new_org_xpath,
                                  Fill tabIndex (''TestOrg'' @ string_of_int i) org_input_selector,
                                  Click tabIndex cancel_selector]"
    by blast
  show "length (fst (runLiveAppTests chromeWs tabIndex baseUrl i w)) = 4"
    by (simp add: run)
  show "map fst (fst (runLiveAppTests chromeWs tabIndex baseUrl i w)) =
        [''Navigate to settings'', ''Click New Organization (XPath)'', ''Type org name'', ''Click Cancel'']"
    by (simp add: run)
  show "trace (snd (runLiveAppTests chromeWs tabIndex baseUrl i w)) =
        trace w @ [Navigate tabIndex (baseUrl @ ''/settings''),
                   Click tabIndex new_org_xpath,
                   Fill tabIndex (''TestOrg'' @ string_of_int i) org_input_selector,
                   Click tabIndex cancel_selector]"
    by (simp add: run t4 t1)
  show "passed (record_all i (fst (runLiveAppTests chromeWs tabIndex baseUrl i w)) res)
        + failed (record_all i (fst (runLiveAppTests chromeWs tabIndex baseUrl i w)) res)
        = passed res + failed res + 4"
    using record_all_counts[of i "fst (runLiveAppTests chromeWs tabIndex baseUrl i w)" res]
    by (simp add: run)
qed

text \<open>
  C5, on a client whose navigation to the settings page throws, and on one where every
  call returns.
\<close>

theorem live_iteration_outcomes_witness:
  "runLiveAppTests nav_fails (JNum 0) ''http://localhost:8080'' 2 \<lparr>cstate = (), trace = []\<rparr> =
     ([(''Navigate to settings'', Failure ''net::ERR_ABORTED'')],
      \<lparr>cstate = (), trace = [Navigate (JNum 0) ''http://localhost:8080/settings'']\<rparr>) \<and>
   length (fst (runLiveAppTests ok_client (JNum 0) ''http://localhost:8080'' 2 \<lparr>cstate = (), trace = []\<rparr>)) = 4"
proof -
  let ?w = "\<lparr>cstate = (), trace = []\<rparr> :: unit world"
  let ?w1 = "\<lparr>cstate = (), trace = [Navigate (JNum 0) ''http://localhost:8080/settings'']\<rparr> :: unit world"
  have a: "invoke nav_fails (Navigate (JNum 0) (''http://localhost:8080'' @ ''/settings'')) ?w
             = (Throw ''net::ERR_ABORTED'', ?w1)"
    by (simp add: invoke_def nav_fails_def)
  have b: "invoke ok_client (Navigate (JNum 0) (''http://localhost:8080'' @ ''/settings'')) ?w
             = (Return (JStr ''x''), ?w1)"
    by (simp add: invoke_def ok_client_def)
  from a live_iteration_outcomes [of nav_fails "JNum 0" "''http://localhost:8080''" ?w 2 results0]
  have "runLiveAppTests nav_fails (JNum 0) ''http://localhost:8080'' 2 ?w =
     ([(''Navigate to settings'', Failure ''net::ERR_ABORTED'')], ?w1)" by blast
  moreover from b live_iteration_outcomes [of ok_client "JNum 0" "''http://localhost:8080''" ?w 2 results0]
  have "length (fst (runLiveAppTests ok_client (JNum 0) ''http://localhost:8080'' 2 ?w)) = 4" by blast
  ultimately show ?thesis by blast
qed

section \<open>Counters across the iteration loop\<close>

lemma record_all_single: "record_all i [(name, r)] res = count_result i name r res"
  by (cases r) (simp_all add: count_result_def)

lemma length_tests: "length (tests i) = 9"
  by (simp add: tests_def)

lemma iteration_body_counts:
  assumes "iteration_body chromeWs tabIndex testUrl isLiveApp i (res, w) = R"
  shows "case R of
           Inl (m, res', w') \<Rightarrow> res' = res
         | Inr (res', w') \<Rightarrow>
             passed res \<le> passed res' \<and> failed res \<le> failed res' \<and>
             length (errors res') + failed res = length (errors res) + failed res' \<and>
             (\<not> isLiveApp \<longrightarrow> passed res' + failed res' = passed res + failed res + 9)"
proof (cases isLiveApp)
  case True
  obtain rs w1 where run: "runLiveAppTests chromeWs tabIndex (replace_last_segment testUrl) i w = (rs, w1)"
    by (cases "runLiveAppTests chromeWs tabIndex (replace_last_segment testUrl) i w")
  with True assms have "R = Inr (record_all i rs res, w1)"
    by (simp add: iteration_body_def)
  with True record_all_counts[of i rs res] show ?thesis by simp
next
  case False
  show ?thesis
  proof (cases rule: invoke_cases[of chromeWs "Eval tabIndex clear_script" w])
    case (throws m w1)
    with False assms have "R = Inl (m, res, w1)"
      by (simp add: iteration_body_def clearTestPage_def)
    then show ?thesis by simp
  next
    case (returns v w1)
    obtain acc' res' w2 where run: "runIteration chromeWs tabIndex i (res, w1) = (acc', res', w2)"
      by (cases "runIteration chromeWs tabIndex i (res, w1)")
    with False assms returns have R: "R = Inr (res', w2)"
      by (simp add: iteration_body_def clearTestPage_def)
    from run have "run_tests chromeWs tabIndex i (tests i) ([], res, w1) = (acc', res', w2)"
      by (simp add: runIteration_def)
    from run_tests_counts[OF this] R False show ?thesis
      by (simp add: length_tests)
  qed
qed

lemma run_iterations_counts:
  assumes "run_iterations chromeWs tabIndex testUrl isLiveApp i n (res, w) = R"
  shows "case R of
           Inl (m, res', w') \<Rightarrow>
             passed res \<le> passed res' \<and> failed res \<le> failed res' \<and>
             length (errors res') + failed res = length (errors res) + failed res'
         | Inr (res', w') \<Rightarrow>
             passed res \<le> passed res' \<and> failed res \<le> failed res' \<and>
             length (errors res') + failed res = length (errors res) + failed res' \<and>
             (\<not> isLiveApp \<longrightarrow>
                passed res' + failed res' = passed res + failed res + 9 * nat (n + 1 - i))"
  using assms
proof (induction chromeWs tabIndex testUrl isLiveApp i n "(res, w)" arbitrary: res w R
       rule: run_iterations.induct)
  case (1 chromeWs tabIndex testUrl isLiveApp i n)
  show ?case
  proof (cases "i \<le> n")
    case False
    with "1.prems" have "R = Inr (res, w)"
      by (simp add: run_iterations.simps)
    with False show ?thesis by simp
  next
    case True
    note body = iteration_body_counts[of chromeWs tabIndex testUrl isLiveApp i res w, OF refl]
    show ?thesis
    proof (cases "iteration_body chromeWs tabIndex testUrl isLiveApp i (res, w)")
      case (Inl e)
      with True "1.prems" have R: "R = Inl e"
        by (subst (asm) run_iterations.simps) simp
      obtain m res' w' where e: "e = (m, res', w')" by (cases e)
      from body Inl e have "res' = res" by simp
      with R e show ?thesis by simp
    next
      case (Inr st')
      obtain res1 w1 where st': "st' = (res1, w1)" by (cases st')
      from True "1.prems" Inr st'
      have R: "run_iterations chromeWs tabIndex testUrl isLiveApp (i + 1) n (res1, w1) = R"
        by (subst (asm) run_iterations.simps) simp
      from Inr st' have body_eq:
        "iteration_body chromeWs tabIndex testUrl isLiveApp i (res, w) = Inr (res1, w1)" by simp
      note IH = "1.hyps"[OF True body_eq R]
      from body Inr st' have b:
        "passed res \<le> passed res1" "failed res \<le> failed res1"
        "length (errors res1) + failed res = length (errors res) + failed res1"
        "\<not> isLiveApp \<longrightarrow> passed res1 + failed res1 = passed res + failed res + 9"
        by simp_all
      from True have n: "nat (n + 1 - i) = Suc (nat (n + 1 - (i + 1)))" by simp
      show ?thesis
      proof (cases R)
        case (Inl e)
        then obtain m res' w' where "R = Inl (m, res', w')" by (cases e) auto
        with IH b show ?thesis by simp
      next
        case (Inr st2)
        then obtain res' w' where "R = Inr (res', w')" by (cases st2) auto
        with IH b n show ?thesis by (simp del: nat_diff_distrib)
      qed
    qed
  qed
qed

section \<open>The invariant of the results\<close>

lemma main_errors_failed:
  "length (errors (final (main chromeWs fixture_path args s0))) = failed (final (main chromeWs fixture_path args s0))"
proof -
  let ?url = "testUrl_of fixture_path args"
  let ?w0 = "\<lparr>cstate = s0, trace = []\<rparr>"
  show ?thesis
  proof (cases rule: invoke_cases[of chromeWs InitializeSession ?w0])
    case (throws m w1)
    then show ?thesis by (simp add: main_def results0_def)
  next
    case init: (returns tabIndex w1)
    show ?thesis
    proof (cases rule: invoke_cases[of chromeWs "Navigate tabIndex ?url" w1])
      case (throws m w2)
      with init show ?thesis by (simp add: main_def results0_def)
    next
      case nav: (returns v w2)
      let ?R = "run_iterations chromeWs tabIndex ?url (startsWith ?url ''http://localhost'') 1
                  (iterations_of args) (results0, w2)"
      note c = run_iterations_counts[of chromeWs tabIndex ?url "startsWith ?url ''http://localhost''" 1
                  "iterations_of args" results0 w2, OF refl]
      show ?thesis
      proof (cases ?R)
        case (Inl e)
        obtain m res w3 where e: "e = (m, res, w3)" by (cases e)
        with c Inl have "length (errors res) = failed res" by (simp add: results0_def)
        with init nav Inl e show ?thesis by (simp add: main_def Let_def)
      next
        case (Inr st)
        obtain res w3 where st: "st = (res, w3)" by (cases st)
        with c Inr have "length (errors res) = failed res" by (simp add: results0_def)
        with init nav Inr st show ?thesis by (simp add: main_def Let_def)
      qed
    qed
  qed
qed

text \<open>
  C6: every recorded outcome increments exactly one of the two counters, a success
  \<open>passed\<close> and a failure \<open>failed\<close>, and a failure record is appended exactly with the
  increment of \<open>failed\<close>; so after the outcomes of any list of steps (in the loop of
  \<open>runIteration\<close>) or of any list of returned entries (in the loop of \<open>main\<close>),
  \<open>passed + failed\<close> has grown by the number of outcomes and the list of failure records
  by the growth of \<open>failed\<close>; at the end of any run the number of failure records is
  \<open>failed\<close>.
\<close>

theorem passed_plus_failed_counts_outcomes:
  "(success r \<longrightarrow> count_result i name r res = res\<lparr>passed := passed res + 1\<rparr>) \<and>
   (\<not> success r \<longrightarrow>
      (\<exists>msg. r = Failure msg \<and>
         count_result i name r res =
           res\<lparr>failed := failed res + 1,
               errors := errors res @ [\<lparr>iteration = i, test = name, error = msg\<rparr>]\<rparr>)) \<and>
   record_all i [(name, r)] res = count_result i name r res \<and>
   (\<forall>acc' res' w'. run_tests chromeWs tabIndex i ts (acc, res, w) = (acc', res', w') \<longrightarrow>
      passed res' + failed res' = passed res + failed res + length ts \<and>
      length (errors res') + failed res = length (errors res) + failed res') \<and>
   passed (record_all i rs res) + failed (record_all i rs res) = passed res + failed res + length rs \<and>
   length (errors (record_all i rs res)) + failed res = length (errors res) + failed (record_all i rs res) \<and>
   passed (record_all i rs results0) + failed (record_all i rs results0) = length rs \<and>
   length (errors (final (main chromeWs fixture_path args s0)))
     = failed (final (main chromeWs fixture_path args s0))"
proof -
  have a: "success r \<longrightarrow> count_result i name r res = res\<lparr>passed := passed res + 1\<rparr>"
    by (simp add: count_result_success)
  have b: "\<not> success r \<longrightarrow>
      (\<exists>msg. r = Failure msg \<and>
         count_result i name r res =
           res\<lparr>failed := failed res + 1,
               errors := errors res @ [\<lparr>iteration = i, test = name, error = msg\<rparr>]\<rparr>)"
    by (cases r) (simp_all add: count_result_failure)
  have c: "\<forall>acc' res' w'. run_tests chromeWs tabIndex i ts (acc, res, w) = (acc', res', w') \<longrightarrow>
      passed res' + failed res' = passed res + failed res + length ts \<and>
      length (errors res') + failed res = length (errors res) + failed res'"
    using run_tests_counts[of chromeWs tabIndex i ts acc res w] by blast
  have d: "passed (record_all i rs results0) + failed (record_all i rs results0) = length rs"
    using record_all_counts[of i rs results0] by (simp add: results0_def)
  from a b c d record_all_single[of i name r res] record_all_counts[of i rs res]
       main_errors_failed[of chromeWs fixture_path args s0]
  show ?thesis by blast
qed

text \<open>C6, on a success and on a failure recorded from the initial state.\<close>

theorem passed_plus_failed_counts_outcomes_witness:
  "success (Success None) \<and> \<not> success (Failure ''timeout'') \<and>
   count_result 1 ''Click button'' (Success None) results0 = \<lparr>passed = 1, failed = 0, errors = []\<rparr> \<and>
   count_result 1 ''Click button'' (Failure ''timeout'') results0 =
     \<lparr>passed = 0, failed = 1,
      errors = [\<lparr>iteration = 1, test = ''Click button'', error = ''timeout''\<rparr>]\<rparr>"
proof -
  have s: "success (Success None)" and f: "\<not> success (Failure ''timeout'')" by simp_all
  note t1 = passed_plus_failed_counts_outcomes [of "Success None" 1 "''Click button''" results0, THEN conjunct1]
  note t2 = passed_plus_failed_counts_outcomes [of "Failure ''timeout''" 1 "''Click button''" results0,
              THEN conjunct2, THEN conjunct1]
  from mp[OF t1 s]
  have a: "count_result 1 ''Click button'' (Success None) results0 = results0\<lparr>passed := passed results0 + 1\<rparr>" .
  from mp[OF t2 f]
  have b: "count_result 1 ''Click button'' (Failure ''timeout'') results0 =
     results0\<lparr>failed := failed results0 + 1,
               errors := errors results0 @ [\<lparr>iteration = 1, test = ''Click button'', error = ''timeout''\<rparr>]\<rparr>"
    by simp
  from s f a b show ?thesis by (simp add: results0_def)
qed

section \<open>Runs on which every action succeeds\<close>

lemma invoke_returns:
  assumes "\<forall>c s. \<exists>v. fst (chromeWs c s) = Return v"
  shows "\<exists>v w1. invoke chromeWs c w = (Return v, w1) \<and> fst (chromeWs c (cstate w)) = Return v"
proof -
  from assms obtain v where "fst (chromeWs c (cstate w)) = Return v" by blast
  then show ?thesis by (cases "chromeWs c (cstate w)") (simp add: invoke_def)
qed

lemma run_fn_all_ok:
  assumes ret: "\<forall>c s. \<exists>v. fst (chromeWs c s) = Return v"
    and rb: "\<forall>t sel s v. fst (chromeWs (Eval t (readback_script sel)) s) = Return v \<longrightarrow> truthy v \<and> length_gt0 v"
  shows "success (fst (run_fn chromeWs tabIndex fn w))"
proof (cases fn)
  case (TestClick selector)
  from invoke_returns[OF ret, where c="Click tabIndex selector" and w=w]
  obtain v w1 where "invoke chromeWs (Click tabIndex selector) w = (Return v, w1)" by blast
  with TestClick show ?thesis by (simp add: testClick_def)
next
  case (TestType selector payload)
  from invoke_returns[OF ret, where c="Fill tabIndex payload selector" and w=w]
  obtain v1 w1 where fill: "invoke chromeWs (Fill tabIndex payload selector) w = (Return v1, w1)" by blast
  from invoke_returns[OF ret, where c="Eval tabIndex (readback_script selector)" and w=w1]
  obtain v w2 where ev: "invoke chromeWs (Eval tabIndex (readback_script selector)) w1 = (Return v, w2)"
    and v: "fst (chromeWs (Eval tabIndex (readback_script selector)) (cstate w1)) = Return v" by blast
  from rb v fill ev TestType show ?thesis by (simp add: testType_def)
qed

lemma run_tests_all_ok:
  assumes ret: "\<forall>c s. \<exists>v. fst (chromeWs c s) = Return v"
    and rb: "\<forall>t sel s v. fst (chromeWs (Eval t (readback_script sel)) s) = Return v \<longrightarrow> truthy v \<and> length_gt0 v"
  shows "\<exists>acc' w'. run_tests chromeWs tabIndex i ts (acc, res, w) =
           (acc', res\<lparr>passed := passed res + length ts\<rparr>, w')"
proof (induction ts arbitrary: acc res w)
  case Nil
  then show ?case by simp
next
  case (Cons t ts)
  obtain name fn where t: "t = (name, fn)" by (cases t)
  obtain r w1 where r: "run_fn chromeWs tabIndex fn w = (r, w1)" by (cases "run_fn chromeWs tabIndex fn w")
  with run_fn_all_ok[OF ret rb, where tabIndex=tabIndex and fn=fn and w=w] have "success r" by simp
  then have cr: "count_result i name r res = res\<lparr>passed := passed res + 1\<rparr>"
    by (rule count_result_success)
  from Cons.IH[of "acc @ [(name, r)]" "res\<lparr>passed := passed res + 1\<rparr>" w1]
  show ?case by (simp add: t r cr)
qed

lemma iteration_body_all_ok:
  assumes ret: "\<forall>c s. \<exists>v. fst (chromeWs c s) = Return v"
    and rb: "\<forall>t sel s v. fst (chromeWs (Eval t (readback_script sel)) s) = Return v \<longrightarrow> truthy v \<and> length_gt0 v"
  shows "\<exists>w'. iteration_body chromeWs tabIndex testUrl False i (res, w) =
           Inr (res\<lparr>passed := passed res + 9\<rparr>, w')"
proof -
  from invoke_returns[OF ret, where c="Eval tabIndex clear_script" and w=w]
  obtain v w1 where cl: "invoke chromeWs (Eval tabIndex clear_script) w = (Return v, w1)" by blast
  from run_tests_all_ok[OF ret rb, where tabIndex=tabIndex and i=i and ts="tests i" and acc="[]" and res=res and w=w1]
  obtain acc' w2 where "run_tests chromeWs tabIndex i (tests i) ([], res, w1) =
           (acc', res\<lparr>passed := passed res + 9\<rparr>, w2)" by (auto simp: length_tests)
  with cl show ?thesis
    by (simp add: iteration_body_def clearTestPage_def runIteration_def)
qed

lemma run_iterations_all_ok:
  assumes ret: "\<forall>c s. \<exists>v. fst (chromeWs c s) = Return v"
    and rb: "\<forall>t sel s v. fst (chromeWs (Eval t (readback_script sel)) s) = Return v \<longrightarrow> truthy v \<and> length_gt0 v"
  shows "\<exists>w'. run_iterations chromeWs tabIndex testUrl False i n (res, w) =
           Inr (res\<lparr>passed := passed res + 9 * nat (n + 1 - i)\<rparr>, w')"
proof (induction "nat (n + 1 - i)" arbitrary: i res w)
  case 0
  then have "\<not> i \<le> n" by simp
  with 0 show ?case by (simp add: run_iterations.simps)
next
  case (Suc k)
  then have le: "i \<le> n" and k: "k = nat (n + 1 - (i + 1))" by simp_all
  from iteration_body_all_ok[OF ret rb, where tabIndex=tabIndex and testUrl=testUrl and i=i and res=res and w=w]
  obtain w1 where body: "iteration_body chromeWs tabIndex testUrl False i (res, w) =
           Inr (res\<lparr>passed := passed res + 9\<rparr>, w1)" by blast
  from Suc.hyps(1)[OF k, of "res\<lparr>passed := passed res + 9\<rparr>" w1]
  obtain w' where rest: "run_iterations chromeWs tabIndex testUrl False (i + 1) n (res\<lparr>passed := passed res + 9\<rparr>, w1) =
           Inr (res\<lparr>passed := passed res + 9\<rparr>\<lparr>passed := passed (res\<lparr>passed := passed res + 9\<rparr>) + 9 * nat (n + 1 - (i + 1))\<rparr>, w')"
    by blast
  have "nat (n + 1 - i) = Suc (nat (n + 1 - (i + 1)))" using Suc.hyps(2) k by simp
  then have "passed res + 9 + 9 * nat (n + 1 - (i + 1)) = passed res + 9 * nat (n + 1 - i)" by simp
  with rest have "run_iterations chromeWs tabIndex testUrl False (i + 1) n (res\<lparr>passed := passed res + 9\<rparr>, w1) =
           Inr (res\<lparr>passed := passed res + 9 * nat (n + 1 - i)\<rparr>, w')" by simp
  with le body show ?case by (subst run_iterations.simps) simp
qed

section \<open>The main runner on concrete arguments\<close>

lemma run_iterations_none:
  "n < i \<Longrightarrow> run_iterations chromeWs tabIndex testUrl isLiveApp i n st = Inr st"
  by (simp add: run_iterations.simps)

lemma main_no_iterations:
  assumes "iterations_of args < 1"
    and "invoke chromeWs InitializeSession \<lparr>cstate = s0, trace = []\<rparr> = (Return tabIndex, w1)"
    and "invoke chromeWs (Navigate tabIndex (testUrl_of fixture_path args)) w1 = (Return v, w2)"
  shows "main chromeWs fixture_path args s0 =
           \<lparr>ending = Reported (failRate results0), exit_code = 0, final = results0, world = w2\<rparr>"
    and "trace w2 = [InitializeSession, Navigate tabIndex (testUrl_of fixture_path args)]"
proof -
  show "main chromeWs fixture_path args s0 =
           \<lparr>ending = Reported (failRate results0), exit_code = 0, final = results0, world = w2\<rparr>"
    using assms by (simp add: main_def Let_def run_iterations_none results0_def)
  from invoke_trace[of chromeWs InitializeSession "\<lparr>cstate = s0, trace = []\<rparr>"] assms(2)
  have "trace w1 = [InitializeSession]" by simp
  with invoke_trace[of chromeWs "Navigate tabIndex (testUrl_of fixture_path args)" w1] assms(3)
  show "trace w2 = [InitializeSession, Navigate tabIndex (testUrl_of fixture_path args)]" by simp
qed

lemma main_all_ok:
  assumes ret: "\<forall>c s. \<exists>v. fst (chromeWs c s) = Return v"
    and rb: "\<forall>t sel s v. fst (chromeWs (Eval t (readback_script sel)) s) = Return v \<longrightarrow> truthy v \<and> length_gt0 v"
    and page: "\<not> startsWith (testUrl_of fixture_path args) ''http://localhost''"
  shows "\<exists>w'. main chromeWs fixture_path args s0 =
           \<lparr>ending = Reported (failRate \<lparr>passed = 9 * nat (iterations_of args), failed = 0, errors = []\<rparr>),
            exit_code = 0,
            final = \<lparr>passed = 9 * nat (iterations_of args), failed = 0, errors = []\<rparr>,
            world = w'\<rparr>"
proof -
  let ?url = "testUrl_of fixture_path args"
  from invoke_returns[OF ret, of InitializeSession "\<lparr>cstate = s0, trace = []\<rparr>"]
  obtain tabIndex w1 where init: "invoke chromeWs InitializeSession \<lparr>cstate = s0, trace = []\<rparr> = (Return tabIndex, w1)"
    by blast
  from invoke_returns[OF ret, of "Navigate tabIndex ?url" w1]
  obtain v w2 where nav: "invoke chromeWs (Navigate tabIndex ?url) w1 = (Return v, w2)" by blast
  from run_iterations_all_ok[OF ret rb, of tabIndex ?url 1 "iterations_of args" results0 w2]
  obtain w3 where "run_iterations chromeWs tabIndex ?url False 1 (iterations_of args) (results0, w2) =
      Inr (\<lparr>passed = 9 * nat (iterations_of args), failed = 0, errors = []\<rparr>, w3)"
    by (auto simp: results0_def)
  with init nav page show ?thesis
    by (simp add: main_def Let_def)
qed

lemma parse_eval:
  "parseInt ''-1'' = Some (- 1)" "parseInt ''0'' = Some 0" "parseInt ''abc'' = None"
  "parseInt ''undefined'' = None" "parseInt ''2'' = Some 2" "parseInt ''12abc'' = Some 12"
  by (simp_all add: parseInt_def strip_sign_def parse_digits_def is_ws_def is_digit_def
        digit_val_def digits_value_def)

lemma iterations_of_eval:
  "iterations_of [''-1''] = - 1" "iterations_of [''0''] = 50" "iterations_of [''abc''] = 50"
  "iterations_of [] = 50" "iterations_of [''2''] = 2"
  by (simp_all add: iterations_of_def parseInt_arg_def arg_at_def parse_eval DEFAULT_ITERATIONS_def)

lemma ok_client_ok:
  "\<forall>c s. \<exists>v. fst (ok_client c s) = Return v"
  "\<forall>t sel s v. fst (ok_client (Eval t (readback_script sel)) s) = Return v \<longrightarrow> truthy v \<and> length_gt0 v"
  by (auto simp: ok_client_def)

lemma testUrl_of_default: "testUrl_of fixture_path [a] = ''file://'' @ fixture_path"
  by (simp add: testUrl_of_def arg_at_def DEFAULT_TEST_URL_def)

lemma file_not_live: "\<not> startsWith (''file://'' @ fixture_path) ''http://localhost''"
  by (simp add: startsWith_def)

lemma failRate_empty: "failRate \<lparr>passed = 0, failed = 0, errors = []\<rparr> = ''NaN''"
  by (simp add: failRate_def js_div_def js_times_def toFixed1_def)

section \<open>Iteration count, empty runs and full runs\<close>

lemma default_url_not_live: "\<not> startsWith (testUrl_of fixture_path [a]) ''http://localhost''"
  by (simp add: testUrl_of_default startsWith_def)

text \<open>
  C7: when every client call returns and every read-back is a non-empty string, the loop
  of the runner in test-page mode, run for \<open>N\<close> iterations from the initial results, ends
  normally with \<open>passed = 9 * N\<close>, no failure and no failure record; each single iteration
  returns nine results, one per step.
\<close>

theorem fixed_page_nine_outcomes_per_iteration:
  assumes "\<forall>c s. \<exists>v. fst (chromeWs c s) = Return v"
    and "\<forall>t sel s v. fst (chromeWs (Eval t (readback_script sel)) s) = Return v \<longrightarrow> truthy v \<and> length_gt0 v"
  shows "(\<exists>w'. run_iterations chromeWs tabIndex testUrl False 1 (int N) (results0, w) =
            Inr (\<lparr>passed = 9 * N, failed = 0, errors = []\<rparr>, w')) \<and>
         length (fst (runIteration chromeWs tabIndex i (res, w))) = 9 \<and>
         map fst (fst (runIteration chromeWs tabIndex i (res, w))) = map fst (tests i)"
proof -
  from run_iterations_all_ok[OF assms, of tabIndex testUrl 1 "int N" results0 w]
  have a: "\<exists>w'. run_iterations chromeWs tabIndex testUrl False 1 (int N) (results0, w) =
            Inr (\<lparr>passed = 9 * N, failed = 0, errors = []\<rparr>, w')"
    by (simp add: results0_def)
  have b: "map fst (fst (run_tests chromeWs tabIndex i ts (acc, res, w))) = map fst acc @ map fst ts"
    for ts acc res and w :: "'a world"
  proof (induction ts arbitrary: acc res w)
    case Nil
    then show ?case by simp
  next
    case (Cons t ts)
    obtain name fn where t: "t = (name, fn)" by (cases t)
    obtain r w1 where r: "run_fn chromeWs tabIndex fn w = (r, w1)"
      by (cases "run_fn chromeWs tabIndex fn w")
    show ?case by (simp add: t r Cons.IH)
  qed
  have c: "map fst (fst (runIteration chromeWs tabIndex i (res, w))) = map fst (tests i)"
    by (simp add: runIteration_def b)
  from arg_cong[OF c, of length] have d: "length (fst (runIteration chromeWs tabIndex i (res, w))) = 9"
    by (simp add: length_tests)
  from a c d show ?thesis by blast
qed

text \<open>C7, on the client whose every call returns \<open>x\<close>, for three iterations.\<close>

theorem fixed_page_nine_outcomes_per_iteration_witness:
  "\<exists>w'. run_iterations ok_client (JNum 0) ''file:///t.html'' False 1 3
          (results0, \<lparr>cstate = (), trace = []\<rparr>) =
        Inr (\<lparr>passed = 27, failed = 0, errors = []\<rparr>, w')"
  using fixed_page_nine_outcomes_per_iteration [OF ok_client_ok, of "JNum 0" "''file:///t.html''" 3
          "\<lparr>cstate = (), trace = []\<rparr>" 1 results0]
  by simp

text \<open>
  C1: the rate line of the report for a run in which no step ran. With the argument
  \<open>-1\<close> the loop body never runs, both counters stay zero, and the quotient of zero by zero
  is printed: \<open>NaN\<close>, not \<open>0.0\<close>.
\<close>

theorem empty_run_prints_NaN:
  "\<exists>w'. main ok_client ''/opt/harness/test-react-inputs.html'' [''-1''] () =
     \<lparr>ending = Reported ''NaN'', exit_code = 0,
      final = \<lparr>passed = 0, failed = 0, errors = []\<rparr>, world = w'\<rparr>"
  using main_all_ok [OF ok_client_ok default_url_not_live, of "''/opt/harness/test-react-inputs.html''" "''-1''" "()"]
  by (simp add: iterations_of_eval failRate_empty)

text \<open>
  C2, as stated, fails: with the first argument \<open>0\<close> the iteration count is 50, and on
  a client whose every call succeeds the run ends with 450 passed steps; and the count is
  also 50 for an argument that is present but starts with no digit.
\<close>

theorem zero_iterations_counterexample:
  "iterations_of [''0''] = 50 \<and>
   passed (final (main ok_client ''/opt/harness/test-react-inputs.html'' [''0''] ())) = 450 \<and>
   iterations_of [''abc''] = 50"
proof -
  from main_all_ok [OF ok_client_ok default_url_not_live, of "''/opt/harness/test-react-inputs.html''" "''0''" "()"]
  have "passed (final (main ok_client ''/opt/harness/test-react-inputs.html'' [''0''] ())) = 450"
    by (auto simp: iterations_of_eval)
  then show ?thesis by (simp add: iterations_of_eval)
qed

text \<open>
  C2 (amended): the iteration count is the integer that \<open>parseInt\<close> reads from the first
  positional argument when that integer is not zero and of magnitude at most
  \<open>2^53 - 1\<close>, in particular \<open>n\<close> for the decimal rendering of any such \<open>n\<close>; it is 50
  when the argument is absent or \<open>parseInt\<close> reads no number from it. When the count is
  below 1 and the session and the page load succeed, no suite invocation occurs: the only
  client calls are the session initialisation and the page navigation, and the run ends with
  \<open>passed = 0\<close>, \<open>failed = 0\<close> and exit code 0.
\<close>

theorem iteration_count_from_argument:
  "iterations_of [] = 50 \<and>
   (parseInt a = None \<longrightarrow> iterations_of (a # rest) = 50) \<and>
   (\<forall>n. parseInt a = Some n \<and> n \<noteq> 0 \<and> \<bar>n\<bar> \<le> MAX_SAFE_INTEGER \<longrightarrow>
        iterations_of (a # rest) = n) \<and>
   (k \<noteq> 0 \<and> \<bar>k\<bar> \<le> MAX_SAFE_INTEGER \<longrightarrow> iterations_of (string_of_int k # rest) = k) \<and>
   (iterations_of args < 1 \<and>
    invoke chromeWs InitializeSession \<lparr>cstate = s0, trace = []\<rparr> = (Return tabIndex, w1) \<and>
    invoke chromeWs (Navigate tabIndex (testUrl_of fixture_path args)) w1 = (Return v, w2) \<longrightarrow>
      final (main chromeWs fixture_path args s0) = \<lparr>passed = 0, failed = 0, errors = []\<rparr> \<and>
      exit_code (main chromeWs fixture_path args s0) = 0 \<and>
      trace (world (main chromeWs fixture_path args s0)) =
        [InitializeSession, Navigate tabIndex (testUrl_of fixture_path args)])"
proof -
  have a: "parseInt a = None \<longrightarrow> iterations_of (a # rest) = 50"
    by (simp add: iterations_of_def parseInt_arg_def arg_at_def DEFAULT_ITERATIONS_def)
  have b: "\<forall>n. parseInt a = Some n \<and> n \<noteq> 0 \<and> \<bar>n\<bar> \<le> MAX_SAFE_INTEGER \<longrightarrow>
        iterations_of (a # rest) = n"
    by (simp add: iterations_of_def parseInt_arg_def arg_at_def)
  have c: "k \<noteq> 0 \<and> \<bar>k\<bar> \<le> MAX_SAFE_INTEGER \<longrightarrow> iterations_of (string_of_int k # rest) = k"
    by (simp add: iterations_of_def parseInt_arg_def arg_at_def parseInt_string_of_int)
  have d: "iterations_of args < 1 \<and>
    invoke chromeWs InitializeSession \<lparr>cstate = s0, trace = []\<rparr> = (Return tabIndex, w1) \<and>
    invoke chromeWs (Navigate tabIndex (testUrl_of fixture_path args)) w1 = (Return v, w2) \<longrightarrow>
      final (main chromeWs fixture_path args s0) = \<lparr>passed = 0, failed = 0, errors = []\<rparr> \<and>
      exit_code (main chromeWs fixture_path args s0) = 0 \<and>
      trace (world (main chromeWs fixture_path args s0)) =
        [InitializeSession, Navigate tabIndex (testUrl_of fixture_path args)]"
  proof (intro impI, elim conjE)
    assume h: "iterations_of args < 1"
      "invoke chromeWs InitializeSession \<lparr>cstate = s0, trace = []\<rparr> = (Return tabIndex, w1)"
      "invoke chromeWs (Navigate tabIndex (testUrl_of fixture_path args)) w1 = (Return v, w2)"
    from main_no_iterations[OF h] show
      "final (main chromeWs fixture_path args s0) = \<lparr>passed = 0, failed = 0, errors = []\<rparr> \<and>
      exit_code (main chromeWs fixture_path args s0) = 0 \<and>
      trace (world (main chromeWs fixture_path args s0)) =
        [InitializeSession, Navigate tabIndex (testUrl_of fixture_path args)]"
      by (simp add: results0_def)
  qed
  from a b c d show ?thesis by (simp add: iterations_of_eval)
qed

text \<open>C2 (amended), on the arguments \<open>-1\<close>, the rendering of 100, and \<open>abc\<close>.\<close>

theorem iteration_count_from_argument_witness:
  "iterations_of [''-1''] < 1 \<and>
   final (main ok_client ''/opt/harness/test-react-inputs.html'' [''-1''] ())
     = \<lparr>passed = 0, failed = 0, errors = []\<rparr> \<and>
   exit_code (main ok_client ''/opt/harness/test-react-inputs.html'' [''-1''] ()) = 0 \<and>
   trace (world (main ok_client ''/opt/harness/test-react-inputs.html'' [''-1''] ())) =
     [InitializeSession, Navigate (JStr ''x'') ''file:///opt/harness/test-react-inputs.html''] \<and>
   (100::int) \<noteq> 0 \<and> \<bar>100\<bar> \<le> MAX_SAFE_INTEGER \<and> iterations_of [string_of_int 100] = 100 \<and>
   parseInt ''-1'' = Some (- 1) \<and> \<bar>- 1\<bar> \<le> MAX_SAFE_INTEGER \<and>
   parseInt ''abc'' = None \<and> iterations_of [''abc'', ''http://localhost:3000''] = 50"
proof -
  let ?fp = "''/opt/harness/test-react-inputs.html''"
  let ?w1 = "\<lparr>cstate = (), trace = [InitializeSession]\<rparr> :: unit world"
  let ?w2 = "\<lparr>cstate = (), trace = [InitializeSession, Navigate (JStr ''x'') (testUrl_of ?fp [''-1''])]\<rparr> :: unit world"
  note t = iteration_count_from_argument [of "''-1''" "[]" 100 "[''-1'']" ok_client "()" "JStr ''x''" ?w1 ?fp "JStr ''x''" ?w2]
  have h1: "iterations_of [''-1''] < 1" by (simp add: iterations_of_eval)
  have h2: "invoke ok_client InitializeSession \<lparr>cstate = (), trace = []\<rparr> = (Return (JStr ''x''), ?w1)"
    by (simp add: invoke_def ok_client_def)
  have h3: "invoke ok_client (Navigate (JStr ''x'') (testUrl_of ?fp [''-1''])) ?w1 = (Return (JStr ''x''), ?w2)"
    by (simp add: invoke_def ok_client_def)
  have h4: "(100::int) \<noteq> 0" "\<bar>100\<bar> \<le> MAX_SAFE_INTEGER" "\<bar>- 1\<bar> \<le> MAX_SAFE_INTEGER"
    "parseInt ''-1'' = Some (- 1)"
    by (simp_all add: MAX_SAFE_INTEGER_def parse_eval)
  have h5: "parseInt ''abc'' = None" by (simp add: parse_eval)
  note u = iteration_count_from_argument [of "''abc''" "[''http://localhost:3000'']", THEN conjunct2, THEN conjunct1]
  from mp[OF u h5] have h6: "iterations_of [''abc'', ''http://localhost:3000''] = 50" .
  from t h1 h2 h3 h4 h5 h6 show ?thesis by (simp add: testUrl_of_default)
qed

section \<open>Evaluation of the rate, the base URL and an aborted run\<close>

lemma toFixed1_eval:
  "toFixed1_nonneg 0 = ''0.0''" "toFixed1_nonneg 100 = ''100.0''"
  "toFixed1_nonneg (100 / 9) = ''11.1''"
  by code_simp+

lemma replace_last_segment_append:
  "CHR ''/'' \<notin> set seg \<Longrightarrow> replace_last_segment (p @ CHR ''/'' # seg) = p"
  by (induction p) auto

lemma replace_last_segment_no_slash:
  "CHR ''/'' \<notin> set s \<Longrightarrow> replace_last_segment s = s"
  by (induction s) auto

lemma runLiveAppTests_first_call:
  "\<exists>rest. trace (snd (runLiveAppTests chromeWs tabIndex baseUrl i w)) =
            trace w @ Navigate tabIndex (baseUrl @ ''/settings'') # rest"
proof (cases rule: invoke_cases[of chromeWs "Navigate tabIndex (baseUrl @ ''/settings'')" w])
  case (throws m w1)
  with runLiveAppTests_nav_throws[OF throws(1), of i] show ?thesis by simp
next
  case (returns v w1)
  from runLiveAppTests_nav_returns[OF returns(1), of i] returns(2) show ?thesis by auto
qed

text \<open>
  C4: an error thrown by the client during the input-clearing call of the second
  iteration. The call is not wrapped in a handler: the error leaves \<open>main\<close>, the run ends
  with the fatal-error exit code 1 after the nine steps of the first iteration, and the third
  iteration never starts.
\<close>

theorem clear_error_aborts_run:
  "ending (main (clear_fails_at 1) ''/opt/harness/test-react-inputs.html'' [''3''] 0) = FatalError ''boom'' \<and>
   exit_code (main (clear_fails_at 1) ''/opt/harness/test-react-inputs.html'' [''3''] 0) = 1 \<and>
   final (main (clear_fails_at 1) ''/opt/harness/test-react-inputs.html'' [''3''] 0)
     = \<lparr>passed = 9, failed = 0, errors = []\<rparr> \<and>
   length (trace (world (main (clear_fails_at 1) ''/opt/harness/test-react-inputs.html'' [''3''] 0))) = 21"
  by code_simp

section \<open>The printed rate and the base URL\<close>

text \<open>
  C8: the printed failure rate is \<open>0.0\<close> when no step failed and some step ran,
  \<open>100.0\<close> when no step passed and some step failed, and \<open>11.1\<close> for 24 passed and 3
  failed steps.
\<close>

theorem printed_failure_rate:
  "(failed res = 0 \<and> 0 < passed res \<longrightarrow> failRate res = ''0.0'') \<and>
   (passed res = 0 \<and> 0 < failed res \<longrightarrow> failRate res = ''100.0'') \<and>
   (passed res = 24 \<and> failed res = 3 \<longrightarrow> failRate res = ''11.1'')"
proof (intro conjI impI)
  assume "failed res = 0 \<and> 0 < passed res"
  then show "failRate res = ''0.0''"
    by (simp add: failRate_def js_div_def js_times_def toFixed1_def toFixed1_eval)
next
  assume "passed res = 0 \<and> 0 < failed res"
  then show "failRate res = ''100.0''"
    by (simp add: failRate_def js_div_def js_times_def toFixed1_def toFixed1_eval)
next
  assume "passed res = 24 \<and> failed res = 3"
  then show "failRate res = ''11.1''"
    by (simp add: failRate_def js_div_def js_times_def toFixed1_def toFixed1_eval)
qed

text \<open>C8, on the three counter states 27/0, 0/5 and 24/3.\<close>

theorem printed_failure_rate_witness:
  "failRate \<lparr>passed = 27, failed = 0, errors = []\<rparr> = ''0.0'' \<and>
   failRate \<lparr>passed = 0, failed = 5, errors = []\<rparr> = ''100.0'' \<and>
   failRate \<lparr>passed = 24, failed = 3, errors = []\<rparr> = ''11.1''"
  using printed_failure_rate [of "\<lparr>passed = 27, failed = 0, errors = []\<rparr>"]
        printed_failure_rate [of "\<lparr>passed = 0, failed = 5, errors = []\<rparr>"]
        printed_failure_rate [of "\<lparr>passed = 24, failed = 3, errors = []\<rparr>"]
  by simp

text \<open>
  C10: the base URL handed to the live-application suite is the target URL without its
  last slash and what follows it, so for a target \<open>p/seg\<close> with no slash in \<open>seg\<close> the first
  call of each iteration navigates to \<open>p/settings\<close>; for \<open>http://localhost:8080/settings\<close>
  the base is \<open>http://localhost:8080\<close>, while for \<open>http://localhost:3000\<close> the part removed
  is \<open>/localhost:3000\<close>, the base is \<open>http:/\<close> and the navigation goes to
  \<open>http://settings\<close>.
\<close>

theorem live_base_url:
  "(CHR ''/'' \<notin> set seg \<longrightarrow>
      replace_last_segment (p @ CHR ''/'' # seg) = p \<and>
      (\<exists>res' w' rest.
         iteration_body chromeWs tabIndex (p @ CHR ''/'' # seg) True i (res, w) = Inr (res', w') \<and>
         trace w' = trace w @ Navigate tabIndex (p @ ''/settings'') # rest)) \<and>
   replace_last_segment ''http://localhost:8080/settings'' = ''http://localhost:8080'' \<and>
   replace_last_segment ''http://localhost:3000'' = ''http:/'' \<and>
   ''http://localhost:3000'' = ''http:/'' @ ''/localhost:3000'' \<and>
   (\<exists>res' w' rest.
      iteration_body chromeWs tabIndex ''http://localhost:3000'' True i (res, w) = Inr (res', w') \<and>
      trace w' = trace w @ Navigate tabIndex ''http://settings'' # rest)"
proof -
  have body: "\<exists>res' w' rest.
         iteration_body chromeWs tabIndex url True i (res, w) = Inr (res', w') \<and>
         trace w' = trace w @ Navigate tabIndex (replace_last_segment url @ ''/settings'') # rest" for url
  proof -
    obtain rs w1 where run: "runLiveAppTests chromeWs tabIndex (replace_last_segment url) i w = (rs, w1)"
      by (cases "runLiveAppTests chromeWs tabIndex (replace_last_segment url) i w")
    with runLiveAppTests_first_call[of chromeWs tabIndex "replace_last_segment url" i w]
    obtain rest where "trace w1 = trace w @ Navigate tabIndex (replace_last_segment url @ ''/settings'') # rest"
      by auto
    with run show ?thesis by (simp add: iteration_body_def)
  qed
  have a: "CHR ''/'' \<notin> set seg \<longrightarrow>
      replace_last_segment (p @ CHR ''/'' # seg) = p \<and>
      (\<exists>res' w' rest.
         iteration_body chromeWs tabIndex (p @ CHR ''/'' # seg) True i (res, w) = Inr (res', w') \<and>
         trace w' = trace w @ Navigate tabIndex (p @ ''/settings'') # rest)"
  proof
    assume "CHR ''/'' \<notin> set seg"
    then have "replace_last_segment (p @ CHR ''/'' # seg) = p"
      by (rule replace_last_segment_append)
    with body[of "p @ CHR ''/'' # seg"] show
      "replace_last_segment (p @ CHR ''/'' # seg) = p \<and>
      (\<exists>res' w' rest.
         iteration_body chromeWs tabIndex (p @ CHR ''/'' # seg) True i (res, w) = Inr (res', w') \<and>
         trace w' = trace w @ Navigate tabIndex (p @ ''/settings'') # rest)"
      by simp
  qed
  have b: "replace_last_segment ''http://localhost:8080/settings'' = ''http://localhost:8080''"
    by simp
  have c: "replace_last_segment ''http://localhost:3000'' = ''http:/''"
    by simp
  have d: "\<exists>res' w' rest.
      iteration_body chromeWs tabIndex ''http://localhost:3000'' True i (res, w) = Inr (res', w') \<and>
      trace w' = trace w @ Navigate tabIndex ''http://settings'' # rest"
    using body[of "''http://localhost:3000''"] unfolding c by simp
  from a b c d show ?thesis by simp
qed

text \<open>C10, on the target \<open>http://localhost:8080/app/settings\<close>.\<close>

theorem live_base_url_witness:
  "CHR ''/'' \<notin> set ''settings'' \<and>
   replace_last_segment (''http://localhost:8080/app'' @ CHR ''/'' # ''settings'') = ''http://localhost:8080/app''"
  using live_base_url [of "''settings''" "''http://localhost:8080/app''"]
  by simp

end
